theory Spec2Isabelle
  imports
    Main
    "HOL-Library.Multiset"
    "HOL-Library.Char_ord"
    "HOL-Library.List_Lexorder"
begin

section \<open>Python strings\<close>

text \<open>
  A Python \<open>str\<close> is modelled as a \<^typ>\<open>string\<close>; each \<^typ>\<open>char\<close> stands for one code
  point below 256. The order on strings is the lexicographic order of the code points
  (\<open>Char_ord\<close>, \<open>List_Lexorder\<close>), which is how Python compares two \<open>str\<close> values.
\<close>

definition dq :: char where
  "dq = CHR 0x22"

definition sq :: char where
  "sq = CHR 0x27"

definition nl :: char where
  "nl = CHR 0x0A"

definition slash :: char where
  "slash = CHR 0x2F"

text \<open>\<open>str.isspace\<close> on one character: the white space code points below 256.\<close>

definition is_space :: "char \<Rightarrow> bool" where
  "is_space c =
     (let n = (of_char c :: nat)
      in (9 \<le> n \<and> n \<le> 13) \<or> (28 \<le> n \<and> n \<le> 32) \<or> n = 133 \<or> n = 160)"

text \<open>\<open>s.strip()\<close>: leading and trailing white space removed.\<close>

definition str_strip :: "string \<Rightarrow> string" where
  "str_strip s = rev (dropWhile is_space (rev (dropWhile is_space s)))"

text \<open>\<open>str.lower\<close> on one character: A-Z and the upper-case letters of Latin-1.\<close>

definition lower_char :: "char \<Rightarrow> char" where
  "lower_char c =
     (let n = (of_char c :: nat)
      in if (65 \<le> n \<and> n \<le> 90) \<or> (192 \<le> n \<and> n \<le> 222 \<and> n \<noteq> 215)
         then char_of (n + 32) else c)"

definition str_lower :: "string \<Rightarrow> string" where
  "str_lower s = map lower_char s"

definition str_startswith :: "string \<Rightarrow> string \<Rightarrow> bool" where
  "str_startswith s p = (take (length p) s = p)"

definition str_endswith :: "string \<Rightarrow> string \<Rightarrow> bool" where
  "str_endswith s p = (drop (length s - length p) s = p \<and> length p \<le> length s)"

text \<open>\<open>sub in s\<close>: \<open>sub\<close> occurs in \<open>s\<close> as a contiguous substring.\<close>

fun str_contains :: "string \<Rightarrow> string \<Rightarrow> bool" where
  "str_contains [] sub = (sub = [])"
| "str_contains (c # cs) sub = (str_startswith (c # cs) sub \<or> str_contains cs sub)"

text \<open>
  \<open>s.replace(old, new)\<close>: every occurrence of \<open>old\<close>, found from left to right without
  overlap, is replaced by \<open>new\<close>. For an empty \<open>old\<close> Python puts \<open>new\<close> before every
  character and at the end.
\<close>

function str_replace :: "string \<Rightarrow> string \<Rightarrow> string \<Rightarrow> string" where
  "str_replace [] old new = (if old = [] then new else [])"
| "str_replace (c # cs) old new =
     (if old = [] then new @ c # str_replace cs old new
      else if str_startswith (c # cs) old
        then new @ str_replace (drop (length old) (c # cs)) old new
      else c # str_replace cs old new)"
  by pat_completeness auto
termination
  by (relation "measure (\<lambda>(s, old, new). length s)") auto

text \<open>
  \<open>file.readlines()\<close> on the text of a file: the lines in order, each one keeping its
  terminating newline; only the last line can lack one.
\<close>

fun readlines :: "string \<Rightarrow> string list" where
  "readlines [] = []"
| "readlines (c # cs) =
     (if c = nl then [c] # readlines cs
      else (case readlines cs of [] \<Rightarrow> [c] # [] | l # ls \<Rightarrow> (c # l) # ls))"

text \<open>\<open>posixpath.basename(p)\<close>: what follows the last slash of \<open>p\<close>.\<close>

definition basename :: "string \<Rightarrow> string" where
  "basename p = rev (takeWhile (\<lambda>c. c \<noteq> slash) (rev p))"

text \<open>\<open>posixpath.join(a, *ps)\<close>.\<close>

definition join_step :: "string \<Rightarrow> string \<Rightarrow> string" where
  "join_step b path =
     (if str_startswith b [slash] then b
      else if path = [] \<or> str_endswith path [slash] then path @ b
      else path @ [slash] @ b)"

definition join_path :: "string \<Rightarrow> string list \<Rightarrow> string" where
  "join_path a ps = fold join_step ps a"

section \<open>Module constants\<close>

definition STEAM_COMMON_FOLDER :: string where
  "STEAM_COMMON_FOLDER = ''common''"

definition STEAM_MANIFEST_EXTENSION :: string where
  "STEAM_MANIFEST_EXTENSION = ''acf''"

definition STEAM_FOLDER_IGNORE_LIST :: "string set" where
  "STEAM_FOLDER_IGNORE_LIST = {str_lower ''Steam Controller Configs''}"

definition STEAM_MANIFEST_INSTALL_DIR_KEY :: string where
  "STEAM_MANIFEST_INSTALL_DIR_KEY = dq # ''installdir'' @ [dq]"

subsection \<open>The regular expression\<close>

text \<open>
  \<open>MANIFEST_INSTALL_REGEX\<close> is \<^verbatim>\<open>(?<=").+(?=")\<close>: a position whose previous character is
  a double quote, then one or more characters other than a newline, as many as possible
  (the quantifier \<open>+\<close> is greedy), then a position whose next character is a double quote.

  \<open>match_end s\<close> tries the part \<^verbatim>\<open>.+(?=")\<close> at the head of \<open>s\<close>. The greedy \<open>.+\<close> first
  takes the whole run of characters before the first newline, and gives characters back
  one at a time, down to one character, until the character that follows is a double
  quote. The result is the length of the match.
\<close>

definition match_end :: "string \<Rightarrow> nat option" where
  "match_end s =
     (let run = takeWhile (\<lambda>c. c \<noteq> nl) s
      in List.find (\<lambda>k. k < length s \<and> s ! k = dq) (rev [1..<Suc (length run)]))"

text \<open>
  \<open>re.findall\<close> scans from left to right: at each position the look-behind is checked
  against the previous character \<open>prev\<close> (there is none at the start of the string), a
  match is recorded, and the scan resumes where the match ended. A position where the
  pattern does not match is skipped.
\<close>

function findall_from :: "char option \<Rightarrow> string \<Rightarrow> string list" where
  "findall_from prev [] = []"
| "findall_from prev (c # cs) =
     (if prev = Some dq then
        (case match_end (c # cs) of
           Some k \<Rightarrow>
             take k (c # cs) # findall_from (Some ((c # cs) ! (k - 1))) (drop k (c # cs))
         | None \<Rightarrow> findall_from (Some c) cs)
      else findall_from (Some c) cs)"
  by pat_completeness auto
termination
proof (relation "measure (\<lambda>(prev, s). length s)")
  show "wf (measure (\<lambda>(prev, s). length s))"
    by simp
next
  fix prev :: "char option" and c :: char and cs :: string and k :: nat
  assume "match_end (c # cs) = Some k"
  then obtain i where "i < length (rev [1..<Suc (length (takeWhile (\<lambda>c. c \<noteq> nl) (c # cs)))])"
    and "k = rev [1..<Suc (length (takeWhile (\<lambda>c. c \<noteq> nl) (c # cs)))] ! i"
    unfolding match_end_def Let_def find_Some_iff by blast
  then have "k \<in> set (rev [1..<Suc (length (takeWhile (\<lambda>c. c \<noteq> nl) (c # cs)))])"
    using nth_mem by blast
  then have "1 \<le> k"
    by auto
  then show "((Some ((c # cs) ! (k - 1)), drop k (c # cs)), prev, c # cs)
               \<in> measure (\<lambda>(prev, s). length s)"
    by simp
qed simp_all

definition findall :: "string \<Rightarrow> string list" where
  "findall s = findall_from None s"

section \<open>The file system and the logger\<close>

text \<open>
  The functions read the file system through \<open>glob\<close>, \<open>isfile\<close>, \<open>isdir\<close> and \<open>open\<close>.
  \<open>open_text fs p\<close> is what \<open>open(p)\<close> followed by \<open>readlines()\<close> delivers: the decoded
  text of the file, or the exception raised (no function of the module catches one).
\<close>

datatype error = OSError | UnicodeDecodeError

record filesystem =
  glob :: "string \<Rightarrow> string list"
  isfile :: "string \<Rightarrow> bool"
  isdir :: "string \<Rightarrow> bool"
  open_text :: "string \<Rightarrow> error + string"

text \<open>A call of \<open>active_logger.info\<close> or \<open>active_logger.error\<close> emits one record.\<close>

datatype level = INFO | ERROR

type_synonym log_record = "level \<times> string"

definition quoted :: "string \<Rightarrow> string" where
  "quoted s = [sq] @ s @ [sq]"

section \<open>The ManifestField extractor\<close>

text \<open>
  The loop over the lines of a manifest (lines 40 to 49). The first line that contains
  the key, white space stripped, decides: both branches end in \<open>break\<close>. The result is the
  value of \<open>install_dir\<close> after the loop and the records logged.
\<close>

fun scan_lines :: "string \<Rightarrow> string list \<Rightarrow> string option \<times> log_record list" where
  "scan_lines manifest_file [] = (None, [])"
| "scan_lines manifest_file (line # lines) =
     (if str_contains (str_strip line) STEAM_MANIFEST_INSTALL_DIR_KEY then
        (let found = findall (str_replace line STEAM_MANIFEST_INSTALL_DIR_KEY [])
         in if length found \<noteq> 1
            then (None,
                  [(ERROR, ''Unable to determine directory of install dir from manifest f''
                           @ manifest_file)])
            else (Some (found ! 0), []))
      else scan_lines manifest_file lines)"

definition get_manifest_install_directory ::
  "filesystem \<Rightarrow> string \<Rightarrow> (error + string option) \<times> log_record list" where
  "get_manifest_install_directory fs manifest_file =
     (let started = [(INFO, ''Checking install dir of manifest: '' @ quoted manifest_file)]
      in case open_text fs manifest_file of
           Inl e \<Rightarrow> (Inl e, started)
         | Inr text \<Rightarrow>
             (case scan_lines manifest_file (readlines text) of
                (install_dir, logged) \<Rightarrow> (Inr install_dir, started @ logged)))"

section \<open>The manifest locator\<close>

text \<open>
  \<open>map(lambda x: get_manifest_install_directory(x, active_logger), manifests)\<close>, consumed
  by \<open>set(...)\<close>: the manifests are visited in order, and an exception raised for one of
  them ends the traversal.
\<close>

fun map_manifests ::
  "filesystem \<Rightarrow> string list \<Rightarrow> (error + string option list) \<times> log_record list" where
  "map_manifests fs [] = (Inr [], [])"
| "map_manifests fs (m # ms) =
     (case get_manifest_install_directory fs m of
        (Inl e, logged) \<Rightarrow> (Inl e, logged)
      | (Inr d, logged) \<Rightarrow>
          (case map_manifests fs ms of
             (Inl e, logged') \<Rightarrow> (Inl e, logged @ logged')
           | (Inr ds, logged') \<Rightarrow> (Inr (d # ds), logged @ logged')))"

text \<open>The text that an f-string puts for a value that is \<open>None\<close> or a \<open>str\<close>.\<close>

fun format_value :: "string option \<Rightarrow> string" where
  "format_value None = ''None''"
| "format_value (Some s) = s"

text \<open>
  The set built at line 93 holds every value returned for a manifest, \<open>None\<close> included:
  nothing filters the results. The loop of line 100 logs one record for each element, in
  the iteration order of the set, which Python leaves open; the model lists them in the
  order of \<^const>\<open>remdups\<close>.
\<close>

definition get_set_of_installed_directories ::
  "filesystem \<Rightarrow> string list \<Rightarrow> (error + string option set) \<times> log_record list" where
  "get_set_of_installed_directories fs manifests =
     (case map_manifests fs manifests of
        (Inl e, logged) \<Rightarrow> (Inl e, logged)
      | (Inr ds, logged) \<Rightarrow>
          (Inr (set ds),
           logged @ map (\<lambda>installed.
                      (INFO, ''Found installed directory: '' @ quoted (format_value installed)))
                    (remdups ds)))"

section \<open>The directory locator\<close>

text \<open>
  \<open>game_folders\<close> is a Python set of paths; the list returned here stands for it, in the
  order it is iterated.
\<close>

definition get_manifests_and_detect_game_directories ::
  "filesystem \<Rightarrow> string \<Rightarrow> string \<Rightarrow> string list \<times> string list" where
  "get_manifests_and_detect_game_directories fs games_folder_glob manifests_glob =
     (let manifests = filter (\<lambda>x. isfile fs x) (glob fs manifests_glob);
          game_folders =
            remdups
              (filter (\<lambda>x. isdir fs x \<and> \<not> (str_lower (basename x) \<in> STEAM_FOLDER_IGNORE_LIST))
                 (glob fs games_folder_glob))
      in (game_folders, manifests))"

section \<open>The reconciler\<close>

text \<open>
  A \<open>dict\<close> is an association list with distinct keys, in insertion order.
  \<open>dict_setitem\<close> is \<open>d[k] = v\<close>: the value of a key already present is overwritten in
  place, a new key goes to the end.
\<close>

type_synonym ('k, 'v) dict = "('k \<times> 'v) list"

fun dict_setitem :: "('k, 'v) dict \<Rightarrow> 'k \<Rightarrow> 'v \<Rightarrow> ('k, 'v) dict" where
  "dict_setitem [] k v = [(k, v)]"
| "dict_setitem ((k', v') # d) k v =
     (if k' = k then (k, v) # d else (k', v') # dict_setitem d k v)"

text \<open>
  The loop of lines 109 to 111 appends to \<open>found_uninstalled_dirs\<close>; \<open>sorted\<close> then
  returns the strings in ascending order.
\<close>

definition find_unmapped_directories ::
  "(string, string) dict \<Rightarrow> string option set \<Rightarrow> string list" where
  "find_unmapped_directories game_folders_base_paths installed_list =
     sort (fold (\<lambda>(directory_name, detected_directory) found_uninstalled_dirs.
                   if \<not> (Some directory_name \<in> installed_list)
                   then found_uninstalled_dirs @ [detected_directory]
                   else found_uninstalled_dirs)
             game_folders_base_paths [])"

section \<open>The whole scan\<close>

definition find_all_unassociated_steam_game_directories ::
  "filesystem \<Rightarrow> string \<Rightarrow> (error + string list) \<times> log_record list" where
  "find_all_unassociated_steam_game_directories fs steam_apps_dir =
     (let manifests_glob = join_path steam_apps_dir [''*.'' @ STEAM_MANIFEST_EXTENSION];
          games_folder_glob = join_path steam_apps_dir [STEAM_COMMON_FOLDER, ''*''];
          log1 = [(INFO, ''Using steamapps dir: '' @ quoted steam_apps_dir),
                  (INFO, ''Using manifests glob search: '' @ quoted manifests_glob),
                  (INFO, ''Using game_folder glob search: '' @ quoted games_folder_glob)]
      in case get_manifests_and_detect_game_directories fs games_folder_glob manifests_glob of
           (game_folders, manifests) \<Rightarrow>
             (let game_folders_base_paths =
                    fold (\<lambda>x d. dict_setitem d (basename x) x) game_folders [];
                  log2 = (INFO, ''Detected manifests:'')
                         # map (\<lambda>manifest. (INFO, CHR 0x09 # quoted manifest)) manifests;
                  log3 = (INFO, ''Detected folders:'')
                         # map (\<lambda>game_folder. (INFO, CHR 0x09 # quoted game_folder)) game_folders
              in case get_set_of_installed_directories fs manifests of
                   (Inl e, logged) \<Rightarrow> (Inl e, log1 @ log2 @ log3 @ logged)
                 | (Inr installed_list, logged) \<Rightarrow>
                     (Inr (find_unmapped_directories game_folders_base_paths installed_list),
                      log1 @ log2 @ log3 @ logged)))"

section \<open>Properties of the reconciler\<close>

lemma fold_found_uninstalled_dirs:
  "fold (\<lambda>(directory_name, detected_directory) found_uninstalled_dirs.
           if \<not> (Some directory_name \<in> I)
           then found_uninstalled_dirs @ [detected_directory]
           else found_uninstalled_dirs) C acc
   = acc @ map snd (filter (\<lambda>(k, p). Some k \<notin> I) C)"
  by (induction C arbitrary: acc) auto

lemma find_unmapped_directories_filter:
  "find_unmapped_directories C I = sort (map snd (filter (\<lambda>(k, p). Some k \<notin> I) C))"
  by (simp add: find_unmapped_directories_def fold_found_uninstalled_dirs)

lemma set_find_unmapped_directories:
  "set (find_unmapped_directories C I) = {p. \<exists>k. (k, p) \<in> set C \<and> Some k \<notin> I}"
  by (auto simp: find_unmapped_directories_filter image_iff)

lemma basename_keys_inj:
  assumes "\<forall>(k, p) \<in> set C. k = basename p"
    and "(k, p) \<in> set C" and "(k', p) \<in> set C"
  shows "k = k'"
proof -
  have "k = basename p"
    using assms(1,2) by fastforce
  moreover have "k' = basename p"
    using assms(1,3) by fastforce
  ultimately show ?thesis
    by simp
qed

lemma sort_cong_mset:
  fixes xs ys :: "'a::linorder list"
  assumes "mset xs = mset ys"
  shows "sort xs = sort ys"
proof (rule properties_for_sort)
  show "mset (sort ys) = mset xs"
    using assms by (simp only: mset_sort)
  show "sorted (sort ys)"
    by (rule sorted_sort)
qed

text \<open>
  Claim C1. For a candidate map \<open>C\<close> from directory base names to full paths (a \<open>dict\<close>:
  distinct keys, each key the base name of its path) and any installed set \<open>I\<close>,
  \<open>find_unmapped_directories C I\<close> is in ascending lexicographic order, it holds exactly
  the paths of the entries of \<open>C\<close> whose key is not in \<open>I\<close> (as a multiset: each such
  entry once), and it holds the path of no entry whose key is in \<open>I\<close>.
\<close>

theorem C1_find_unmapped_directories_exact:
  assumes "distinct (map fst C)" and "\<forall>(k, p) \<in> set C. k = basename p"
  shows "sorted (find_unmapped_directories C I)
       \<and> mset (find_unmapped_directories C I)
           = image_mset snd (filter_mset (\<lambda>(k, p). Some k \<notin> I) (mset C))
       \<and> (\<forall>(k, p) \<in> set C. Some k \<in> I \<longrightarrow> p \<notin> set (find_unmapped_directories C I))"
proof (intro conjI)
  show "sorted (find_unmapped_directories C I)"
    by (simp add: find_unmapped_directories_filter)
  show "mset (find_unmapped_directories C I)
          = image_mset snd (filter_mset (\<lambda>(k, p). Some k \<notin> I) (mset C))"
    by (simp add: find_unmapped_directories_filter)
  show "\<forall>(k, p) \<in> set C. Some k \<in> I \<longrightarrow> p \<notin> set (find_unmapped_directories C I)"
  proof (clarify)
    fix k p
    assume entry: "(k, p) \<in> set C" and inst: "Some k \<in> I"
      and "p \<in> set (find_unmapped_directories C I)"
    then obtain k' where "(k', p) \<in> set C" and "Some k' \<notin> I"
      unfolding set_find_unmapped_directories by blast
    with entry inst basename_keys_inj [OF assms(2)] show False
      by blast
  qed
qed

theorem C1_find_unmapped_directories_exact_witness:
  "distinct (map fst [(''B'', ''/c/B''), (''A'', ''/c/A''), (''C'', ''/c/C'')])
   \<and> map fst [(''B'', ''/c/B''), (''A'', ''/c/A''), (''C'', ''/c/C'')]
       = map (basename \<circ> snd) [(''B'', ''/c/B''), (''A'', ''/c/A''), (''C'', ''/c/C'')]
   \<and> sorted (find_unmapped_directories
                [(''B'', ''/c/B''), (''A'', ''/c/A''), (''C'', ''/c/C'')] {Some ''A'', Some ''C''})
   \<and> mset (find_unmapped_directories
              [(''B'', ''/c/B''), (''A'', ''/c/A''), (''C'', ''/c/C'')] {Some ''A'', Some ''C''})
       = image_mset snd
           (filter_mset (\<lambda>(k, p). Some k \<notin> {Some ''A'', Some ''C''})
              (mset [(''B'', ''/c/B''), (''A'', ''/c/A''), (''C'', ''/c/C'')]))
   \<and> ''/c/A'' \<notin> set (find_unmapped_directories
                         [(''B'', ''/c/B''), (''A'', ''/c/A''), (''C'', ''/c/C'')]
                         {Some ''A'', Some ''C''})
   \<and> find_unmapped_directories
         [(''B'', ''/c/B''), (''A'', ''/c/A''), (''C'', ''/c/C'')] {Some ''A'', Some ''C''}
       = [''/c/B'']"
proof -
  have keys: "distinct (map fst [(''B'', ''/c/B''), (''A'', ''/c/A''), (''C'', ''/c/C'')])"
    by simp
  have names: "\<forall>(k, p) \<in> set [(''B'', ''/c/B''), (''A'', ''/c/A''), (''C'', ''/c/C'')].
                 k = basename p"
    by (simp add: basename_def slash_def)
  have names': "map fst [(''B'', ''/c/B''), (''A'', ''/c/A''), (''C'', ''/c/C'')]
       = map (basename \<circ> snd) [(''B'', ''/c/B''), (''A'', ''/c/A''), (''C'', ''/c/C'')]"
    by (simp add: basename_def slash_def)
  have entry: "(''A'', ''/c/A'') \<in> set [(''B'', ''/c/B''), (''A'', ''/c/A''), (''C'', ''/c/C'')]"
    by simp
  have inst: "Some ''A'' \<in> {Some ''A'', Some ''C''}"
    by simp
  have val: "find_unmapped_directories
               [(''B'', ''/c/B''), (''A'', ''/c/A''), (''C'', ''/c/C'')] {Some ''A'', Some ''C''}
             = [''/c/B'']"
    by (simp add: find_unmapped_directories_def)
  from C1_find_unmapped_directories_exact [OF keys names, of "{Some ''A'', Some ''C''}"]
    keys names' entry inst val
  show ?thesis
    by blast
qed

text \<open>
  Claim C5. The membership test of the reconciler is equality of strings: an entry
  \<open>(k, p)\<close> of a candidate map is left out of the result when \<open>k\<close> itself is in the
  installed set, and it is reported whenever \<open>k\<close> itself is not, whatever other names (a
  case variant of \<open>k\<close>, say) the set holds.
\<close>

theorem C5_exact_membership:
  assumes "distinct (map fst C)" and "\<forall>(k, p) \<in> set C. k = basename p"
    and "(k, p) \<in> set C"
  shows "(Some k \<in> I \<longrightarrow> p \<notin> set (find_unmapped_directories C I))
       \<and> (Some k \<notin> I \<longrightarrow> p \<in> set (find_unmapped_directories C I))"
proof (intro conjI impI)
  assume inst: "Some k \<in> I"
  show "p \<notin> set (find_unmapped_directories C I)"
  proof
    assume "p \<in> set (find_unmapped_directories C I)"
    then obtain k' where "(k', p) \<in> set C" and "Some k' \<notin> I"
      unfolding set_find_unmapped_directories by blast
    with assms(3) inst basename_keys_inj [OF assms(2)] show False
      by blast
  qed
next
  assume "Some k \<notin> I"
  with assms(3) show "p \<in> set (find_unmapped_directories C I)"
    unfolding set_find_unmapped_directories by blast
qed

theorem C5_exact_membership_witness:
  "distinct (map fst [(''Game'', ''/c/Game''), (''Other'', ''/c/Other'')])
   \<and> map fst [(''Game'', ''/c/Game''), (''Other'', ''/c/Other'')]
       = map (basename \<circ> snd) [(''Game'', ''/c/Game''), (''Other'', ''/c/Other'')]
   \<and> (''Game'', ''/c/Game'') \<in> set [(''Game'', ''/c/Game''), (''Other'', ''/c/Other'')]
   \<and> Some ''Game'' \<notin> {Some ''game'', Some ''Other''}
   \<and> ''/c/Game'' \<in> set (find_unmapped_directories
                            [(''Game'', ''/c/Game''), (''Other'', ''/c/Other'')]
                            {Some ''game'', Some ''Other''})
   \<and> (''Other'', ''/c/Other'') \<in> set [(''Game'', ''/c/Game''), (''Other'', ''/c/Other'')]
   \<and> Some ''Other'' \<in> {Some ''game'', Some ''Other''}
   \<and> ''/c/Other'' \<notin> set (find_unmapped_directories
                             [(''Game'', ''/c/Game''), (''Other'', ''/c/Other'')]
                             {Some ''game'', Some ''Other''})"
proof -
  have keys: "distinct (map fst [(''Game'', ''/c/Game''), (''Other'', ''/c/Other'')])"
    by simp
  have names: "\<forall>(k, p) \<in> set [(''Game'', ''/c/Game''), (''Other'', ''/c/Other'')].
                 k = basename p"
    by (simp add: basename_def slash_def)
  have names': "map fst [(''Game'', ''/c/Game''), (''Other'', ''/c/Other'')]
       = map (basename \<circ> snd) [(''Game'', ''/c/Game''), (''Other'', ''/c/Other'')]"
    by (simp add: basename_def slash_def)
  have e1: "(''Game'', ''/c/Game'') \<in> set [(''Game'', ''/c/Game''), (''Other'', ''/c/Other'')]"
    by simp
  have e2: "(''Other'', ''/c/Other'') \<in> set [(''Game'', ''/c/Game''), (''Other'', ''/c/Other'')]"
    by simp
  have n1: "Some ''Game'' \<notin> {Some ''game'', Some ''Other''}"
    by simp
  have n2: "Some ''Other'' \<in> {Some ''game'', Some ''Other''}"
    by simp
  from C5_exact_membership [OF keys names e1, of "{Some ''game'', Some ''Other''}"]
    C5_exact_membership [OF keys names e2, of "{Some ''game'', Some ''Other''}"]
    keys names' e1 e2 n1 n2
  show ?thesis
    by blast
qed

text \<open>
  Claim C9. The result of \<open>find_unmapped_directories\<close> is a function of the dictionary
  and the set alone: two dictionaries with the same entries, in whatever order they
  were inserted, give the same ordered list.
\<close>

theorem C9_deterministic:
  assumes "distinct (map fst C)" and "distinct (map fst C')" and "map_of C = map_of C'"
  shows "find_unmapped_directories C I = find_unmapped_directories C' I"
proof -
  have "set C = set C'"
    using map_of_inject_set [OF assms(1,2)] assms(3) by blast
  moreover have "distinct C" and "distinct C'"
    using assms(1,2) by (simp_all add: distinct_map)
  ultimately have "mset C = mset C'"
    by (simp only: set_eq_iff_mset_eq_distinct)
  then have "image_mset snd (filter_mset (\<lambda>(k, p). Some k \<notin> I) (mset C))
           = image_mset snd (filter_mset (\<lambda>(k, p). Some k \<notin> I) (mset C'))"
    by (rule arg_cong)
  then have "mset (map snd (filter (\<lambda>(k, p). Some k \<notin> I) C))
           = mset (map snd (filter (\<lambda>(k, p). Some k \<notin> I) C'))"
    by (simp only: mset_map mset_filter)
  then show ?thesis
    unfolding find_unmapped_directories_filter by (rule sort_cong_mset)
qed

theorem C9_deterministic_witness:
  "distinct (map fst [(''A'', ''/c/A''), (''B'', ''/c/B'')])
   \<and> distinct (map fst [(''B'', ''/c/B''), (''A'', ''/c/A'')])
   \<and> map_of [(''A'', ''/c/A''), (''B'', ''/c/B'')] = map_of [(''B'', ''/c/B''), (''A'', ''/c/A'')]
   \<and> find_unmapped_directories [(''A'', ''/c/A''), (''B'', ''/c/B'')] {None}
       = find_unmapped_directories [(''B'', ''/c/B''), (''A'', ''/c/A'')] {None}"
proof -
  have k1: "distinct (map fst [(''A'', ''/c/A''), (''B'', ''/c/B'')])"
    by simp
  have k2: "distinct (map fst [(''B'', ''/c/B''), (''A'', ''/c/A'')])"
    by simp
  have same: "map_of [(''A'', ''/c/A''), (''B'', ''/c/B'')]
            = map_of [(''B'', ''/c/B''), (''A'', ''/c/A'')]"
    by (rule ext) simp
  from C9_deterministic [OF k1 k2 same, of "{None}"] k1 k2 same
  show ?thesis
    by blast
qed

text \<open>
  Claim C10. A larger installed set reports fewer directories: for \<open>I \<subseteq> I'\<close>, every
  path reported for \<open>I'\<close> is reported for \<open>I\<close>. Every path reported is the path of an
  entry of the candidate map.
\<close>

theorem C10_antitone:
  assumes "I \<subseteq> I'"
  shows "set (find_unmapped_directories C I') \<subseteq> set (find_unmapped_directories C I)
       \<and> set (find_unmapped_directories C I) \<subseteq> snd ` set C
       \<and> set (find_unmapped_directories C I') \<subseteq> snd ` set C"
  unfolding set_find_unmapped_directories using assms by (intro conjI) (blast, force, force)

theorem C10_antitone_witness:
  "{Some ''A''} \<subseteq> {Some ''A'', Some ''C''}
   \<and> set (find_unmapped_directories [(''A'', ''/c/A''), (''B'', ''/c/B''), (''C'', ''/c/C'')]
            {Some ''A'', Some ''C''})
       \<subseteq> set (find_unmapped_directories [(''A'', ''/c/A''), (''B'', ''/c/B''), (''C'', ''/c/C'')]
                {Some ''A''})
   \<and> set (find_unmapped_directories [(''A'', ''/c/A''), (''B'', ''/c/B''), (''C'', ''/c/C'')]
            {Some ''A''})
       \<subseteq> snd ` set [(''A'', ''/c/A''), (''B'', ''/c/B''), (''C'', ''/c/C'')]"
proof -
  have sub: "{Some ''A''} \<subseteq> {Some ''A'', Some ''C''}"
    by simp
  from C10_antitone [OF sub, of "[(''A'', ''/c/A''), (''B'', ''/c/B''), (''C'', ''/c/C'')]"] sub
  show ?thesis
    by blast
qed

section \<open>Properties of the extractor\<close>

lemma scan_lines_skip:
  assumes "\<forall>x \<in> set pre. \<not> str_contains (str_strip x) STEAM_MANIFEST_INSTALL_DIR_KEY"
  shows "scan_lines manifest_file (pre @ lines) = scan_lines manifest_file lines"
  using assms by (induction pre) simp_all

lemma scan_lines_key_line:
  assumes "str_contains (str_strip line) STEAM_MANIFEST_INSTALL_DIR_KEY"
  shows "scan_lines manifest_file (line # rest) = scan_lines manifest_file [line]"
  using assms by simp

lemma scan_lines_no_key:
  assumes "\<forall>x \<in> set lines. \<not> str_contains (str_strip x) STEAM_MANIFEST_INSTALL_DIR_KEY"
  shows "scan_lines manifest_file lines = (None, [])"
  using scan_lines_skip [OF assms, of manifest_file "[]"] by simp

lemma get_manifest_install_directory_readable:
  assumes "open_text fs manifest_file = Inr text"
  shows "get_manifest_install_directory fs manifest_file =
           (Inr (fst (scan_lines manifest_file (readlines text))),
            (INFO, ''Checking install dir of manifest: '' @ quoted manifest_file)
            # snd (scan_lines manifest_file (readlines text)))"
  using assms by (simp add: get_manifest_install_directory_def split: prod.split)

lemma get_manifest_install_directory_unreadable:
  assumes "open_text fs manifest_file = Inl e"
  shows "get_manifest_install_directory fs manifest_file =
           (Inl e, [(INFO, ''Checking install dir of manifest: '' @ quoted manifest_file)])"
  using assms by (simp add: get_manifest_install_directory_def)

lemma fst_get_manifest_install_directory:
  "fst (get_manifest_install_directory fs manifest_file) =
     (case open_text fs manifest_file of
        Inl e \<Rightarrow> Inl e
      | Inr text \<Rightarrow> Inr (fst (scan_lines manifest_file (readlines text))))"
  by (simp add: get_manifest_install_directory_def split: sum.split prod.split)

text \<open>
  Claim C7. The scan of a manifest ends at the first line that contains the key: two
  manifests whose lines agree up to and including that line give the same value and
  the same log records, whatever follows it, and the outcome is the one of that line
  alone, be it a value or a parse failure.
\<close>

theorem C7_stops_at_first_key_line:
  assumes "open_text fs manifest_file = Inr text"
    and "open_text fs' manifest_file = Inr text'"
    and "readlines text = pre @ line # rest"
    and "readlines text' = pre @ line # rest'"
    and "\<forall>x \<in> set pre. \<not> str_contains (str_strip x) STEAM_MANIFEST_INSTALL_DIR_KEY"
    and "str_contains (str_strip line) STEAM_MANIFEST_INSTALL_DIR_KEY"
  shows "get_manifest_install_directory fs manifest_file
           = get_manifest_install_directory fs' manifest_file
       \<and> scan_lines manifest_file (readlines text) = scan_lines manifest_file [line]"
proof -
  have "scan_lines manifest_file (readlines text) = scan_lines manifest_file [line]"
    using assms(3) scan_lines_skip [OF assms(5)] scan_lines_key_line [OF assms(6)]
    by simp
  moreover have "scan_lines manifest_file (readlines text') = scan_lines manifest_file [line]"
    using assms(4) scan_lines_skip [OF assms(5)] scan_lines_key_line [OF assms(6)]
    by simp
  ultimately show ?thesis
    by (simp add: get_manifest_install_directory_readable [OF assms(1)]
        get_manifest_install_directory_readable [OF assms(2)])
qed

theorem C7_stops_at_first_key_line_witness:
  "open_text \<lparr>glob = \<lambda>p. [], isfile = \<lambda>p. True, isdir = \<lambda>p. False,
              open_text = \<lambda>p. Inr (''{'' @ [nl]
                 @ STEAM_MANIFEST_INSTALL_DIR_KEY @ '' '' @ [dq] @ ''G'' @ [dq, nl]
                 @ STEAM_MANIFEST_INSTALL_DIR_KEY @ '' '' @ [dq] @ ''H'' @ [dq, nl])\<rparr> ''m.acf''
     = Inr (''{'' @ [nl]
                 @ STEAM_MANIFEST_INSTALL_DIR_KEY @ '' '' @ [dq] @ ''G'' @ [dq, nl]
                 @ STEAM_MANIFEST_INSTALL_DIR_KEY @ '' '' @ [dq] @ ''H'' @ [dq, nl])
   \<and> readlines (''{'' @ [nl]
                 @ STEAM_MANIFEST_INSTALL_DIR_KEY @ '' '' @ [dq] @ ''G'' @ [dq, nl]
                 @ STEAM_MANIFEST_INSTALL_DIR_KEY @ '' '' @ [dq] @ ''H'' @ [dq, nl])
       = [''{'' @ [nl]] @ (STEAM_MANIFEST_INSTALL_DIR_KEY @ '' '' @ [dq] @ ''G'' @ [dq, nl])
           # [STEAM_MANIFEST_INSTALL_DIR_KEY @ '' '' @ [dq] @ ''H'' @ [dq, nl]]
   \<and> readlines (''{'' @ [nl] @ STEAM_MANIFEST_INSTALL_DIR_KEY @ '' '' @ [dq] @ ''G'' @ [dq, nl])
       = [''{'' @ [nl]] @ (STEAM_MANIFEST_INSTALL_DIR_KEY @ '' '' @ [dq] @ ''G'' @ [dq, nl]) # []
   \<and> \<not> str_contains (str_strip (''{'' @ [nl])) STEAM_MANIFEST_INSTALL_DIR_KEY
   \<and> str_contains (str_strip (STEAM_MANIFEST_INSTALL_DIR_KEY @ '' '' @ [dq] @ ''G'' @ [dq, nl]))
        STEAM_MANIFEST_INSTALL_DIR_KEY
   \<and> get_manifest_install_directory
         \<lparr>glob = \<lambda>p. [], isfile = \<lambda>p. True, isdir = \<lambda>p. False,
          open_text = \<lambda>p. Inr (''{'' @ [nl]
                 @ STEAM_MANIFEST_INSTALL_DIR_KEY @ '' '' @ [dq] @ ''G'' @ [dq, nl]
                 @ STEAM_MANIFEST_INSTALL_DIR_KEY @ '' '' @ [dq] @ ''H'' @ [dq, nl])\<rparr> ''m.acf''
       = get_manifest_install_directory
           \<lparr>glob = \<lambda>p. [], isfile = \<lambda>p. True, isdir = \<lambda>p. False,
            open_text = \<lambda>p. Inr (''{'' @ [nl]
                 @ STEAM_MANIFEST_INSTALL_DIR_KEY @ '' '' @ [dq] @ ''G'' @ [dq, nl])\<rparr> ''m.acf''"
proof -
  let ?t = "''{'' @ [nl]
                 @ STEAM_MANIFEST_INSTALL_DIR_KEY @ '' '' @ [dq] @ ''G'' @ [dq, nl]
                 @ STEAM_MANIFEST_INSTALL_DIR_KEY @ '' '' @ [dq] @ ''H'' @ [dq, nl]"
  let ?t' = "''{'' @ [nl] @ STEAM_MANIFEST_INSTALL_DIR_KEY @ '' '' @ [dq] @ ''G'' @ [dq, nl]"
  let ?fs = "\<lparr>glob = \<lambda>p. [], isfile = \<lambda>p. True, isdir = \<lambda>p. False, open_text = \<lambda>p. Inr ?t\<rparr>"
  let ?fs' = "\<lparr>glob = \<lambda>p. [], isfile = \<lambda>p. True, isdir = \<lambda>p. False, open_text = \<lambda>p. Inr ?t'\<rparr>"
  let ?line = "STEAM_MANIFEST_INSTALL_DIR_KEY @ '' '' @ [dq] @ ''G'' @ [dq, nl]"
  have h1: "open_text ?fs ''m.acf'' = Inr ?t"
    by simp
  have h2: "open_text ?fs' ''m.acf'' = Inr ?t'"
    by simp
  have h3: "readlines ?t = [''{'' @ [nl]] @ ?line
              # [STEAM_MANIFEST_INSTALL_DIR_KEY @ '' '' @ [dq] @ ''H'' @ [dq, nl]]"
    by code_simp
  have h4: "readlines ?t' = [''{'' @ [nl]] @ ?line # []"
    by code_simp
  have h5': "\<not> str_contains (str_strip (''{'' @ [nl])) STEAM_MANIFEST_INSTALL_DIR_KEY"
    by code_simp
  then have h5: "\<forall>x \<in> set [''{'' @ [nl]].
                   \<not> str_contains (str_strip x) STEAM_MANIFEST_INSTALL_DIR_KEY"
    by simp
  have h6: "str_contains (str_strip ?line) STEAM_MANIFEST_INSTALL_DIR_KEY"
    by code_simp
  from C7_stops_at_first_key_line [OF h1 h2 h3 h4 h5 h6] h1 h3 h4 h5' h6
  show ?thesis
    by blast
qed

lemma MyGame_line_has_key:
  "str_contains (str_strip (STEAM_MANIFEST_INSTALL_DIR_KEY @ ''  '' @ [dq] @ ''MyGame'' @ [dq]))
     STEAM_MANIFEST_INSTALL_DIR_KEY"
  "str_contains (str_strip (STEAM_MANIFEST_INSTALL_DIR_KEY @ ''  '' @ [dq] @ ''MyGame'' @ [dq, nl]))
     STEAM_MANIFEST_INSTALL_DIR_KEY"
  by code_simp+

lemma MyGame_line_findall:
  "findall (str_replace (STEAM_MANIFEST_INSTALL_DIR_KEY @ ''  '' @ [dq] @ ''MyGame'' @ [dq])
              STEAM_MANIFEST_INSTALL_DIR_KEY []) = [''MyGame'']"
  "findall (str_replace (STEAM_MANIFEST_INSTALL_DIR_KEY @ ''  '' @ [dq] @ ''MyGame'' @ [dq, nl])
              STEAM_MANIFEST_INSTALL_DIR_KEY []) = [''MyGame'']"
  by code_simp+

text \<open>
  Claim C8. When the first key line of a manifest is \<^verbatim>\<open>"installdir"  "MyGame"\<close>, with or
  without its newline, the extraction returns \<open>MyGame\<close>.
\<close>

theorem C8_installdir_line_yields_MyGame:
  assumes "open_text fs manifest_file = Inr text"
    and "readlines text = pre @ line # rest"
    and "\<forall>x \<in> set pre. \<not> str_contains (str_strip x) STEAM_MANIFEST_INSTALL_DIR_KEY"
    and "line = STEAM_MANIFEST_INSTALL_DIR_KEY @ ''  '' @ [dq] @ ''MyGame'' @ [dq]
       \<or> line = STEAM_MANIFEST_INSTALL_DIR_KEY @ ''  '' @ [dq] @ ''MyGame'' @ [dq, nl]"
  shows "fst (get_manifest_install_directory fs manifest_file) = Inr (Some ''MyGame'')"
proof -
  have "scan_lines manifest_file (line # rest) = (Some ''MyGame'', [])"
    using assms(4) MyGame_line_has_key MyGame_line_findall by auto
  then have "scan_lines manifest_file (readlines text) = (Some ''MyGame'', [])"
    using assms(2) scan_lines_skip [OF assms(3)] by simp
  then show ?thesis
    by (simp add: get_manifest_install_directory_readable [OF assms(1)])
qed

theorem C8_installdir_line_yields_MyGame_witness:
  "open_text \<lparr>glob = \<lambda>p. [], isfile = \<lambda>p. True, isdir = \<lambda>p. False,
              open_text = \<lambda>p. Inr (''{'' @ [nl]
                 @ STEAM_MANIFEST_INSTALL_DIR_KEY @ ''  '' @ [dq] @ ''MyGame'' @ [dq, nl]
                 @ ''}'' @ [nl])\<rparr> ''m.acf''
     = Inr (''{'' @ [nl]
                 @ STEAM_MANIFEST_INSTALL_DIR_KEY @ ''  '' @ [dq] @ ''MyGame'' @ [dq, nl]
                 @ ''}'' @ [nl])
   \<and> readlines (''{'' @ [nl]
                 @ STEAM_MANIFEST_INSTALL_DIR_KEY @ ''  '' @ [dq] @ ''MyGame'' @ [dq, nl]
                 @ ''}'' @ [nl])
       = [''{'' @ [nl]] @ (STEAM_MANIFEST_INSTALL_DIR_KEY @ ''  '' @ [dq] @ ''MyGame'' @ [dq, nl])
           # [''}'' @ [nl]]
   \<and> \<not> str_contains (str_strip (''{'' @ [nl])) STEAM_MANIFEST_INSTALL_DIR_KEY
   \<and> fst (get_manifest_install_directory
         \<lparr>glob = \<lambda>p. [], isfile = \<lambda>p. True, isdir = \<lambda>p. False,
          open_text = \<lambda>p. Inr (''{'' @ [nl]
                 @ STEAM_MANIFEST_INSTALL_DIR_KEY @ ''  '' @ [dq] @ ''MyGame'' @ [dq, nl]
                 @ ''}'' @ [nl])\<rparr> ''m.acf'') = Inr (Some ''MyGame'')"
proof -
  let ?t = "''{'' @ [nl]
                 @ STEAM_MANIFEST_INSTALL_DIR_KEY @ ''  '' @ [dq] @ ''MyGame'' @ [dq, nl]
                 @ ''}'' @ [nl]"
  let ?fs = "\<lparr>glob = \<lambda>p. [], isfile = \<lambda>p. True, isdir = \<lambda>p. False, open_text = \<lambda>p. Inr ?t\<rparr>"
  let ?line = "STEAM_MANIFEST_INSTALL_DIR_KEY @ ''  '' @ [dq] @ ''MyGame'' @ [dq, nl]"
  have h1: "open_text ?fs ''m.acf'' = Inr ?t"
    by simp
  have h2: "readlines ?t = [''{'' @ [nl]] @ ?line # [''}'' @ [nl]]"
    by code_simp
  have h3': "\<not> str_contains (str_strip (''{'' @ [nl])) STEAM_MANIFEST_INSTALL_DIR_KEY"
    by code_simp
  then have h3: "\<forall>x \<in> set [''{'' @ [nl]].
                   \<not> str_contains (str_strip x) STEAM_MANIFEST_INSTALL_DIR_KEY"
    by simp
  have h4: "?line = STEAM_MANIFEST_INSTALL_DIR_KEY @ ''  '' @ [dq] @ ''MyGame'' @ [dq]
          \<or> ?line = STEAM_MANIFEST_INSTALL_DIR_KEY @ ''  '' @ [dq] @ ''MyGame'' @ [dq, nl]"
    by simp
  from C8_installdir_line_yields_MyGame [OF h1 h2 h3 h4] h1 h2 h3'
  show ?thesis
    by blast
qed

subsection \<open>The expression matches at most once on a line\<close>

text \<open>
  On a line delivered by \<open>readlines\<close> the only newline is the last character, so the
  greedy \<open>.+\<close> of a first match runs to the last double quote of the line, and nothing
  after it can match. With the key removed or not, \<open>findall\<close> returns no match or one
  match: the guard \<open>len(found) != 1\<close> of line 44 can only see an empty list.
\<close>

lemma match_end_None:
  assumes "dq \<notin> set (tl s)"
  shows "match_end s = None"
proof -
  have "s ! k \<noteq> dq" if k1: "1 \<le> k" and k2: "k < length s" for k
  proof -
    obtain c cs where s: "s = c # cs"
      using k2 by (cases s) auto
    obtain j where j: "k = Suc j"
      using k1 by (cases k) auto
    from s j k2 have "s ! k = cs ! j" and "j < length cs"
      by simp_all
    then have "s ! k \<in> set cs"
      by simp
    with assms s show ?thesis
      by auto
  qed
  then show ?thesis
    unfolding match_end_def Let_def find_None_iff by auto
qed

lemma findall_from_no_later_quote:
  assumes "dq \<notin> set (tl s)"
  shows "findall_from prev s = []"
  using assms
proof (induction s arbitrary: prev)
  case Nil
  then show ?case by simp
next
  case (Cons c cs)
  from Cons.prems have "match_end (c # cs) = None"
    by (rule match_end_None)
  moreover have "dq \<notin> set (tl cs)"
    using Cons.prems by (cases cs) auto
  ultimately show ?case
    using Cons.IH by simp
qed

lemma takeWhile_single_line:
  assumes "nl \<notin> set (butlast s)"
  shows "length s \<le> Suc (length (takeWhile (\<lambda>c. c \<noteq> nl) s))"
proof (cases "s = []")
  case True
  then show ?thesis by simp
next
  case False
  have "takeWhile (\<lambda>c. c \<noteq> nl) (butlast s @ [last s])
           = butlast s @ takeWhile (\<lambda>c. c \<noteq> nl) [last s]"
    using assms by (intro takeWhile_append2) auto
  then have "length (butlast s) \<le> length (takeWhile (\<lambda>c. c \<noteq> nl) (butlast s @ [last s]))"
    by simp
  then have "length (butlast s) \<le> length (takeWhile (\<lambda>c. c \<noteq> nl) s)"
    by (simp only: append_butlast_last_id [OF False])
  then show ?thesis
    by simp
qed

lemma rev_upt_nth:
  assumes "j < n"
  shows "rev [1..<Suc n] ! j = n - j"
proof -
  have "rev [1..<Suc n] ! j = [1..<Suc n] ! (length [1..<Suc n] - Suc j)"
    using assms by (intro rev_nth) simp
  also have "\<dots> = [1..<Suc n] ! (n - Suc j)"
    by simp
  also have "\<dots> = 1 + (n - Suc j)"
    using assms by (intro nth_upt) simp
  finally show ?thesis
    using assms by simp
qed

lemma match_end_last_quote:
  assumes "match_end s = Some k" and "nl \<notin> set (butlast s)"
  shows "1 \<le> k \<and> dq \<notin> set (drop (Suc k) s)"
proof -
  define n where "n = length (takeWhile (\<lambda>c. c \<noteq> nl) s)"
  define xs where "xs = rev [1..<Suc n]"
  have len: "length xs = n"
    by (simp add: xs_def)
  from assms(1) have "List.find (\<lambda>k. k < length s \<and> s ! k = dq) xs = Some k"
    by (simp add: match_end_def Let_def n_def xs_def)
  then obtain i where i: "i < length xs"
    and k: "k = xs ! i"
    and first: "\<forall>j<i. \<not> (xs ! j < length s \<and> s ! (xs ! j) = dq)"
    unfolding find_Some_iff by blast
  from i len have "i < n"
    by simp
  then have kn: "k = n - i"
    using k rev_upt_nth by (simp add: xs_def)
  have "s ! m \<noteq> dq" if m1: "k < m" and m2: "m < length s" for m
  proof
    assume q: "s ! m = dq"
    have "m \<le> n"
      using takeWhile_single_line [OF assms(2)] m2 unfolding n_def by simp
    with m1 kn \<open>i < n\<close> have lt: "n - m < i" and "n - m < n"
      by arith+
    then have "xs ! (n - m) = n - (n - m)"
      using rev_upt_nth by (simp add: xs_def)
    with \<open>m \<le> n\<close> have "xs ! (n - m) = m"
      by simp
    with first lt m2 q show False
      by auto
  qed
  then have "dq \<notin> set (drop (Suc k) s)"
    by (auto simp: in_set_conv_nth)
  moreover have "1 \<le> k"
    using kn \<open>i < n\<close> by simp
  ultimately show ?thesis
    by simp
qed


lemma findall_from_single_line:
  assumes "nl \<notin> set (butlast s)"
  shows "length (findall_from prev s) \<le> 1"
  using assms
proof (induction prev s rule: findall_from.induct)
  case (1 prev)
  then show ?case by simp
next
  case (2 prev c cs)
  have rest: "nl \<notin> set (butlast cs)"
    using "2.prems" by (cases cs) auto
  show ?case
  proof (cases "prev = Some dq")
    case False
    with "2.IH" rest show ?thesis
      by simp
  next
    case True
    show ?thesis
    proof (cases "match_end (c # cs)")
      case None
      with True "2.IH" rest show ?thesis
        by simp
    next
      case (Some k)
      from match_end_last_quote [OF Some "2.prems"]
      have "dq \<notin> set (tl (drop k (c # cs)))"
        by (simp add: drop_Suc tl_drop)
      then have "findall_from (Some ((c # cs) ! (k - 1))) (drop k (c # cs)) = []"
        by (rule findall_from_no_later_quote)
      with True Some show ?thesis
        by simp
    qed
  qed
qed

lemma readlines_single_line:
  assumes "l \<in> set (readlines t)"
  shows "nl \<notin> set (butlast l)"
  using assms
proof (induction t arbitrary: l)
  case Nil
  then show ?case by simp
next
  case (Cons c cs)
  show ?case
  proof (cases "c = nl")
    case True
    with Cons show ?thesis
      by auto
  next
    case False
    show ?thesis
    proof (cases "readlines cs")
      case Nil
      with False Cons.prems show ?thesis
        by simp
    next
      case more: (Cons l0 ls)
      with False Cons.prems have "l = c # l0 \<or> l \<in> set ls"
        by simp
      then show ?thesis
      proof
        assume "l = c # l0"
        moreover have "nl \<notin> set (butlast l0)"
          using Cons.IH more by simp
        ultimately show ?thesis
          using False by simp
      next
        assume "l \<in> set ls"
        then show ?thesis
          using Cons.IH more by simp
      qed
    qed
  qed
qed

lemma str_replace_single_line:
  assumes "new = []" and "nl \<notin> set (butlast s)"
  shows "nl \<notin> set (butlast (str_replace s old new))"
  using assms
proof (induction s old new rule: str_replace.induct)
  case (1 old new)
  then show ?case by simp
next
  case (2 c cs old new)
  have rest: "nl \<notin> set (butlast cs)"
    using "2.prems" by (cases cs) auto
  have head: "c \<noteq> nl" if "cs \<noteq> []"
    using "2.prems" that by auto
  have keep: "nl \<notin> set (butlast (c # str_replace cs old new))"
    if "nl \<notin> set (butlast (str_replace cs old new))"
  proof (cases "cs = []")
    case True
    with "2.prems"(1) show ?thesis by simp
  next
    case False
    with head that show ?thesis by simp
  qed
  show ?case
  proof (cases "old = []")
    case True
    with "2.IH"(1) "2.prems"(1) rest keep show ?thesis
      by simp
  next
    case False
    show ?thesis
    proof (cases "str_startswith (c # cs) old")
      case True
      have "nl \<notin> set (butlast (drop (length old) (c # cs)))"
        using "2.prems"(2) by (auto simp: butlast_drop dest: in_set_dropD)
      with False True "2.IH"(2) "2.prems"(1) show ?thesis
        by simp
    next
      case no: False
      with False "2.IH"(3) "2.prems"(1) rest keep show ?thesis
        by simp
    qed
  qed
qed

lemma findall_line_at_most_one:
  assumes "l \<in> set (readlines t)"
  shows "length (findall (str_replace l old [])) \<le> 1"
proof -
  have "nl \<notin> set (butlast l)"
    using assms by (rule readlines_single_line)
  then have "nl \<notin> set (butlast (str_replace l old []))"
    by (intro str_replace_single_line) simp_all
  then show ?thesis
    unfolding findall_def by (rule findall_from_single_line)
qed

text \<open>
  Claim C3 says that a key line with two quoted substrings after the key is a parse
  failure. The code does not behave so: on the line \<^verbatim>\<open>"installdir" "A" "B"\<close> the greedy
  expression yields the single match \<^verbatim>\<open>A" "B\<close>, which is returned as the install
  directory and goes into the installed set, and no error is logged.
\<close>

theorem C3_two_quoted_substrings_accepted:
  "get_manifest_install_directory
     \<lparr>glob = \<lambda>p. [], isfile = \<lambda>p. True, isdir = \<lambda>p. False,
      open_text = \<lambda>p. Inr (STEAM_MANIFEST_INSTALL_DIR_KEY
                            @ '' '' @ [dq] @ ''A'' @ [dq] @ '' '' @ [dq] @ ''B'' @ [dq, nl])\<rparr>
     ''m.acf''
   = (Inr (Some (''A'' @ [dq] @ '' '' @ [dq] @ ''B'')),
      [(INFO, ''Checking install dir of manifest: '' @ quoted ''m.acf'')])
   \<and> fst (get_set_of_installed_directories
       \<lparr>glob = \<lambda>p. [], isfile = \<lambda>p. True, isdir = \<lambda>p. False,
        open_text = \<lambda>p. Inr (STEAM_MANIFEST_INSTALL_DIR_KEY
                            @ '' '' @ [dq] @ ''A'' @ [dq] @ '' '' @ [dq] @ ''B'' @ [dq, nl])\<rparr>
       [''m.acf''])
     = Inr {Some (''A'' @ [dq] @ '' '' @ [dq] @ ''B'')}"
  by code_simp

section \<open>Properties of the manifest locator\<close>

lemma map_manifests_Inr_iff:
  "fst (map_manifests fs ms) = Inr ds
     \<longleftrightarrow> map (\<lambda>m. fst (get_manifest_install_directory fs m)) ms = map Inr ds"
proof (induction ms arbitrary: ds)
  case Nil
  then show ?case by auto
next
  case (Cons m ms)
  obtain r logged where g: "get_manifest_install_directory fs m = (r, logged)"
    by (cases "get_manifest_install_directory fs m")
  obtain rs logged' where mm: "map_manifests fs ms = (rs, logged')"
    by (cases "map_manifests fs ms")
  show ?case
  proof (cases r)
    case (Inl e)
    with g show ?thesis
      by (cases ds) auto
  next
    case (Inr d)
    show ?thesis
    proof (cases rs)
      case (Inl e)
      then have "\<And>ds'. map (\<lambda>m. fst (get_manifest_install_directory fs m)) ms \<noteq> map Inr ds'"
        using Cons.IH mm by (metis fst_conv sum.distinct(1))
      with g mm Inr Inl show ?thesis
        by (cases ds) auto
    next
      case right: (Inr ds0)
      then have "\<And>ds'. map (\<lambda>m. fst (get_manifest_install_directory fs m)) ms = map Inr ds'
                   \<longleftrightarrow> ds0 = ds'"
        using Cons.IH mm by (metis fst_conv sum.inject(2))
      with g mm Inr right show ?thesis
        by (cases ds) auto
    qed
  qed
qed

lemma map_manifests_readable:
  assumes "\<forall>m \<in> set ms. \<exists>text. open_text fs m = Inr text"
  shows "\<exists>ds. fst (map_manifests fs ms) = Inr ds"
  using assms
proof (induction ms)
  case Nil
  then show ?case by simp
next
  case (Cons m ms)
  then obtain t where "open_text fs m = Inr t"
    by auto
  moreover obtain ds where "fst (map_manifests fs ms) = Inr ds"
    using Cons by auto
  ultimately show ?case
    by (cases "map_manifests fs ms")
       (simp add: get_manifest_install_directory_readable)
qed

lemma map_manifests_unreadable:
  assumes "m \<in> set ms" and "open_text fs m = Inl e"
  shows "\<exists>e'. fst (map_manifests fs ms) = Inl e'"
  using assms
proof (induction ms)
  case Nil
  then show ?case by simp
next
  case (Cons x xs)
  show ?case
  proof (cases "open_text fs x")
    case (Inl e0)
    then show ?thesis
      by (simp add: get_manifest_install_directory_unreadable)
  next
    case (Inr t)
    with Cons have "\<exists>e'. fst (map_manifests fs xs) = Inl e'"
      by auto
    with Inr show ?thesis
      by (cases "map_manifests fs xs")
         (auto simp: get_manifest_install_directory_readable)
  qed
qed

lemma fst_get_set_of_installed_directories:
  "fst (get_set_of_installed_directories fs ms) =
     (case fst (map_manifests fs ms) of Inl e \<Rightarrow> Inl e | Inr ds \<Rightarrow> Inr (set ds))"
  by (cases "map_manifests fs ms")
     (simp add: get_set_of_installed_directories_def split: sum.split)

text \<open>
  Claim C2, amended. A malformed key line is absorbed: when every manifest can be opened
  and read, the scan returns the set of the values of all manifests, and a manifest
  whose first key line does not give exactly one match returns \<open>None\<close> and logs one
  error record. An unreadable manifest is not absorbed: the exception of \<open>open\<close> or
  \<open>readlines\<close> ends the scan.
\<close>

theorem C2_malformed_line_absorbed_unreadable_raised:
  "((\<forall>m \<in> set manifests. \<exists>text. open_text fs m = Inr text) \<longrightarrow>
      (\<exists>ds. fst (get_set_of_installed_directories fs manifests) = Inr (set ds)
            \<and> map (\<lambda>m. fst (get_manifest_install_directory fs m)) manifests = map Inr ds))
   \<and> (open_text fs manifest_file = Inr text
        \<and> readlines text = pre @ line # rest
        \<and> (\<forall>x \<in> set pre. \<not> str_contains (str_strip x) STEAM_MANIFEST_INSTALL_DIR_KEY)
        \<and> str_contains (str_strip line) STEAM_MANIFEST_INSTALL_DIR_KEY
        \<and> length (findall (str_replace line STEAM_MANIFEST_INSTALL_DIR_KEY [])) \<noteq> 1 \<longrightarrow>
      get_manifest_install_directory fs manifest_file =
        (Inr None,
         [(INFO, ''Checking install dir of manifest: '' @ quoted manifest_file),
          (ERROR, ''Unable to determine directory of install dir from manifest f''
                  @ manifest_file)]))
   \<and> (unreadable \<in> set manifests \<and> open_text fs unreadable = Inl e \<longrightarrow>
        (\<exists>e'. fst (get_set_of_installed_directories fs manifests) = Inl e'))"
proof (intro conjI impI)
  assume "\<forall>m \<in> set manifests. \<exists>text. open_text fs m = Inr text"
  then obtain ds where ds: "fst (map_manifests fs manifests) = Inr ds"
    using map_manifests_readable by blast
  then have "map (\<lambda>m. fst (get_manifest_install_directory fs m)) manifests = map Inr ds"
    by (simp only: map_manifests_Inr_iff)
  moreover have "fst (get_set_of_installed_directories fs manifests) = Inr (set ds)"
    using ds by (simp add: fst_get_set_of_installed_directories)
  ultimately show "\<exists>ds. fst (get_set_of_installed_directories fs manifests) = Inr (set ds)
            \<and> map (\<lambda>m. fst (get_manifest_install_directory fs m)) manifests = map Inr ds"
    by blast
next
  assume a: "open_text fs manifest_file = Inr text
        \<and> readlines text = pre @ line # rest
        \<and> (\<forall>x \<in> set pre. \<not> str_contains (str_strip x) STEAM_MANIFEST_INSTALL_DIR_KEY)
        \<and> str_contains (str_strip line) STEAM_MANIFEST_INSTALL_DIR_KEY
        \<and> length (findall (str_replace line STEAM_MANIFEST_INSTALL_DIR_KEY [])) \<noteq> 1"
  then have "scan_lines manifest_file (readlines text) = scan_lines manifest_file (line # rest)"
    using scan_lines_skip by simp
  also have "\<dots> = (None,
         [(ERROR, ''Unable to determine directory of install dir from manifest f''
                  @ manifest_file)])"
    using a by simp
  finally show "get_manifest_install_directory fs manifest_file =
        (Inr None,
         [(INFO, ''Checking install dir of manifest: '' @ quoted manifest_file),
          (ERROR, ''Unable to determine directory of install dir from manifest f''
                  @ manifest_file)])"
    using a by (simp add: get_manifest_install_directory_readable)
next
  assume "unreadable \<in> set manifests \<and> open_text fs unreadable = Inl e"
  then obtain e' where "fst (map_manifests fs manifests) = Inl e'"
    using map_manifests_unreadable by blast
  then show "\<exists>e'. fst (get_set_of_installed_directories fs manifests) = Inl e'"
    by (simp add: fst_get_set_of_installed_directories)
qed

theorem C2_malformed_line_absorbed_unreadable_raised_witness:
  "open_text
     \<lparr>glob = \<lambda>p. [], isfile = \<lambda>p. True, isdir = \<lambda>p. False,
        open_text = \<lambda>p. if p = ''c.acf'' then Inl OSError
                         else if p = ''a.acf''
                           then Inr (STEAM_MANIFEST_INSTALL_DIR_KEY @ '' none'' @ [nl])
                         else Inr (STEAM_MANIFEST_INSTALL_DIR_KEY
                                   @ ''  '' @ [dq] @ ''MyGame'' @ [dq, nl])\<rparr> ''a.acf''
     = Inr (STEAM_MANIFEST_INSTALL_DIR_KEY @ '' none'' @ [nl])
   \<and> open_text
     \<lparr>glob = \<lambda>p. [], isfile = \<lambda>p. True, isdir = \<lambda>p. False,
        open_text = \<lambda>p. if p = ''c.acf'' then Inl OSError
                         else if p = ''a.acf''
                           then Inr (STEAM_MANIFEST_INSTALL_DIR_KEY @ '' none'' @ [nl])
                         else Inr (STEAM_MANIFEST_INSTALL_DIR_KEY
                                   @ ''  '' @ [dq] @ ''MyGame'' @ [dq, nl])\<rparr> ''b.acf''
     = Inr (STEAM_MANIFEST_INSTALL_DIR_KEY @ ''  '' @ [dq] @ ''MyGame'' @ [dq, nl])
   \<and> (\<exists>ds. fst (get_set_of_installed_directories
     \<lparr>glob = \<lambda>p. [], isfile = \<lambda>p. True, isdir = \<lambda>p. False,
        open_text = \<lambda>p. if p = ''c.acf'' then Inl OSError
                         else if p = ''a.acf''
                           then Inr (STEAM_MANIFEST_INSTALL_DIR_KEY @ '' none'' @ [nl])
                         else Inr (STEAM_MANIFEST_INSTALL_DIR_KEY
                                   @ ''  '' @ [dq] @ ''MyGame'' @ [dq, nl])\<rparr> [''a.acf'', ''b.acf'']) = Inr (set ds)
          \<and> map (\<lambda>m. fst (get_manifest_install_directory
     \<lparr>glob = \<lambda>p. [], isfile = \<lambda>p. True, isdir = \<lambda>p. False,
        open_text = \<lambda>p. if p = ''c.acf'' then Inl OSError
                         else if p = ''a.acf''
                           then Inr (STEAM_MANIFEST_INSTALL_DIR_KEY @ '' none'' @ [nl])
                         else Inr (STEAM_MANIFEST_INSTALL_DIR_KEY
                                   @ ''  '' @ [dq] @ ''MyGame'' @ [dq, nl])\<rparr> m)) [''a.acf'', ''b.acf''] = map Inr ds)
   \<and> fst (get_set_of_installed_directories
     \<lparr>glob = \<lambda>p. [], isfile = \<lambda>p. True, isdir = \<lambda>p. False,
        open_text = \<lambda>p. if p = ''c.acf'' then Inl OSError
                         else if p = ''a.acf''
                           then Inr (STEAM_MANIFEST_INSTALL_DIR_KEY @ '' none'' @ [nl])
                         else Inr (STEAM_MANIFEST_INSTALL_DIR_KEY
                                   @ ''  '' @ [dq] @ ''MyGame'' @ [dq, nl])\<rparr> [''a.acf'', ''b.acf'']) = Inr {None, Some ''MyGame''}
   \<and> readlines (STEAM_MANIFEST_INSTALL_DIR_KEY @ '' none'' @ [nl])
       = [] @ (STEAM_MANIFEST_INSTALL_DIR_KEY @ '' none'' @ [nl]) # []
   \<and> str_contains (str_strip (STEAM_MANIFEST_INSTALL_DIR_KEY @ '' none'' @ [nl]))
        STEAM_MANIFEST_INSTALL_DIR_KEY
   \<and> length (findall (str_replace (STEAM_MANIFEST_INSTALL_DIR_KEY @ '' none'' @ [nl])
                         STEAM_MANIFEST_INSTALL_DIR_KEY [])) \<noteq> 1
   \<and> get_manifest_install_directory
     \<lparr>glob = \<lambda>p. [], isfile = \<lambda>p. True, isdir = \<lambda>p. False,
        open_text = \<lambda>p. if p = ''c.acf'' then Inl OSError
                         else if p = ''a.acf''
                           then Inr (STEAM_MANIFEST_INSTALL_DIR_KEY @ '' none'' @ [nl])
                         else Inr (STEAM_MANIFEST_INSTALL_DIR_KEY
                                   @ ''  '' @ [dq] @ ''MyGame'' @ [dq, nl])\<rparr> ''a.acf''
       = (Inr None,
          [(INFO, ''Checking install dir of manifest: '' @ quoted ''a.acf''),
           (ERROR, ''Unable to determine directory of install dir from manifest f''
                   @ ''a.acf'')])
   \<and> ''c.acf'' \<in> set [''a.acf'', ''b.acf'', ''c.acf'']
   \<and> open_text
     \<lparr>glob = \<lambda>p. [], isfile = \<lambda>p. True, isdir = \<lambda>p. False,
        open_text = \<lambda>p. if p = ''c.acf'' then Inl OSError
                         else if p = ''a.acf''
                           then Inr (STEAM_MANIFEST_INSTALL_DIR_KEY @ '' none'' @ [nl])
                         else Inr (STEAM_MANIFEST_INSTALL_DIR_KEY
                                   @ ''  '' @ [dq] @ ''MyGame'' @ [dq, nl])\<rparr> ''c.acf'' = Inl OSError
   \<and> (\<exists>e'. fst (get_set_of_installed_directories
     \<lparr>glob = \<lambda>p. [], isfile = \<lambda>p. True, isdir = \<lambda>p. False,
        open_text = \<lambda>p. if p = ''c.acf'' then Inl OSError
                         else if p = ''a.acf''
                           then Inr (STEAM_MANIFEST_INSTALL_DIR_KEY @ '' none'' @ [nl])
                         else Inr (STEAM_MANIFEST_INSTALL_DIR_KEY
                                   @ ''  '' @ [dq] @ ''MyGame'' @ [dq, nl])\<rparr> [''a.acf'', ''b.acf'', ''c.acf'']) = Inl e')"
proof -
  let ?fs = "\<lparr>glob = \<lambda>p. [], isfile = \<lambda>p. True, isdir = \<lambda>p. False,
        open_text = \<lambda>p. if p = ''c.acf'' then Inl OSError
                         else if p = ''a.acf''
                           then Inr (STEAM_MANIFEST_INSTALL_DIR_KEY @ '' none'' @ [nl])
                         else Inr (STEAM_MANIFEST_INSTALL_DIR_KEY
                                   @ ''  '' @ [dq] @ ''MyGame'' @ [dq, nl])\<rparr>"
  let ?la = "STEAM_MANIFEST_INSTALL_DIR_KEY @ '' none'' @ [nl]"
  have w1: "open_text ?fs ''a.acf'' = Inr ?la"
    by simp
  have w2: "open_text ?fs ''b.acf''
              = Inr (STEAM_MANIFEST_INSTALL_DIR_KEY @ ''  '' @ [dq] @ ''MyGame'' @ [dq, nl])"
    by simp
  have readable: "\<forall>m \<in> set [''a.acf'', ''b.acf'']. \<exists>text. open_text ?fs m = Inr text"
    by simp
  have w4: "fst (get_set_of_installed_directories ?fs [''a.acf'', ''b.acf''])
              = Inr {None, Some ''MyGame''}"
    by code_simp
  have w5: "readlines ?la = [] @ ?la # []"
    by code_simp
  have w6: "str_contains (str_strip ?la) STEAM_MANIFEST_INSTALL_DIR_KEY"
    by code_simp
  have w7: "length (findall (str_replace ?la STEAM_MANIFEST_INSTALL_DIR_KEY [])) \<noteq> 1"
    by code_simp
  have nopre: "\<forall>x \<in> set ([] :: string list).
                 \<not> str_contains (str_strip x) STEAM_MANIFEST_INSTALL_DIR_KEY"
    by simp
  have w9: "''c.acf'' \<in> set [''a.acf'', ''b.acf'', ''c.acf'']"
    by simp
  have w10: "open_text ?fs ''c.acf'' = Inl OSError"
    by simp
  note thm1 = C2_malformed_line_absorbed_unreadable_raised
    [of "[''a.acf'', ''b.acf'']" ?fs "''a.acf''" ?la "[]" ?la "[]" "''c.acf''" OSError]
  note thm2 = C2_malformed_line_absorbed_unreadable_raised
    [of "[''a.acf'', ''b.acf'', ''c.acf'']" ?fs "''a.acf''" ?la "[]" ?la "[]" "''c.acf''" OSError]
  have c1: "\<exists>ds. fst (get_set_of_installed_directories ?fs [''a.acf'', ''b.acf''])
                   = Inr (set ds)
          \<and> map (\<lambda>m. fst (get_manifest_install_directory ?fs m)) [''a.acf'', ''b.acf'']
              = map Inr ds"
    using thm1 readable by blast
  have c2: "get_manifest_install_directory ?fs ''a.acf''
       = (Inr None,
          [(INFO, ''Checking install dir of manifest: '' @ quoted ''a.acf''),
           (ERROR, ''Unable to determine directory of install dir from manifest f''
                   @ ''a.acf'')])"
    using thm1 w1 w5 nopre w6 w7 by blast
  have c3: "\<exists>e'. fst (get_set_of_installed_directories ?fs
                        [''a.acf'', ''b.acf'', ''c.acf'']) = Inl e'"
    using thm2 w9 w10 by blast
  from w1 w2 c1 w4 w5 w6 w7 c2 w9 w10 c3 show ?thesis
    by (intro conjI)
qed

text \<open>
  The claim as stated fails: with an unreadable first manifest the scan of two manifests
  ends with the exception, and the second manifest is never read.
\<close>

theorem C2_unreadable_manifest_aborts_scan:
  "fst (get_set_of_installed_directories
          \<lparr>glob = \<lambda>p. [], isfile = \<lambda>p. True, isdir = \<lambda>p. False,
           open_text = \<lambda>p. if p = ''a.acf'' then Inl OSError
                            else Inr (STEAM_MANIFEST_INSTALL_DIR_KEY
                                      @ ''  '' @ [dq] @ ''MyGame'' @ [dq, nl])\<rparr>
          [''a.acf'', ''b.acf''])
   = Inl OSError"
  by code_simp

lemma map_manifests_no_key:
  assumes "\<forall>m \<in> set ms. \<exists>text. open_text fs m = Inr text
             \<and> (\<forall>x \<in> set (readlines text).
                   \<not> str_contains (str_strip x) STEAM_MANIFEST_INSTALL_DIR_KEY)"
  shows "fst (map_manifests fs ms) = Inr (map (\<lambda>m. None) ms)"
proof -
  have "fst (get_manifest_install_directory fs m) = Inr None" if "m \<in> set ms" for m
  proof -
    from that assms obtain c where t: "open_text fs m = Inr c"
      and nokey: "\<forall>x \<in> set (readlines c).
                    \<not> str_contains (str_strip x) STEAM_MANIFEST_INSTALL_DIR_KEY"
      by blast
    show ?thesis
      by (simp add: get_manifest_install_directory_readable [OF t] scan_lines_no_key [OF nokey])
  qed
  then have "map (\<lambda>m. fst (get_manifest_install_directory fs m)) ms
           = map Inr (map (\<lambda>m. None) ms)"
    by simp
  then show ?thesis
    by (simp only: map_manifests_Inr_iff)
qed

lemma find_unmapped_directories_None:
  "find_unmapped_directories C {None} = sort (map snd C)"
proof -
  have "filter (\<lambda>(k, p). Some k \<notin> {None}) C = C"
    by (induction C) auto
  then show ?thesis
    by (simp add: find_unmapped_directories_filter)
qed

text \<open>
  Claim C4, amended. Every extraction result goes into the set, \<open>None\<close> included: when
  every manifest can be read, the installed set is exactly the set of the values
  returned for the manifests, and a manifest without a key line returns \<open>None\<close>. So
  when there are manifests, all readable, and none has a key line, the installed set is
  \<open>{None}\<close>. It holds no name, so every candidate directory is reported, in ascending
  order.
\<close>

theorem C4_no_key_installed_set_is_None:
  "((\<forall>m \<in> set manifests. \<exists>text. open_text fs m = Inr text) \<longrightarrow>
      (\<exists>ds. fst (get_set_of_installed_directories fs manifests) = Inr (set ds)
            \<and> map (\<lambda>m. fst (get_manifest_install_directory fs m)) manifests = map Inr ds))
   \<and> (open_text fs manifest_file = Inr text
        \<and> (\<forall>x \<in> set (readlines text).
              \<not> str_contains (str_strip x) STEAM_MANIFEST_INSTALL_DIR_KEY) \<longrightarrow>
      fst (get_manifest_install_directory fs manifest_file) = Inr None)
   \<and> (manifests \<noteq> []
        \<and> (\<forall>m \<in> set manifests. \<exists>text. open_text fs m = Inr text
              \<and> (\<forall>x \<in> set (readlines text).
                    \<not> str_contains (str_strip x) STEAM_MANIFEST_INSTALL_DIR_KEY)) \<longrightarrow>
      fst (get_set_of_installed_directories fs manifests) = Inr {None}
      \<and> find_unmapped_directories C {None} = sort (map snd C))"
proof (intro conjI impI)
  assume "\<forall>m \<in> set manifests. \<exists>text. open_text fs m = Inr text"
  then obtain ds where ds: "fst (map_manifests fs manifests) = Inr ds"
    using map_manifests_readable by blast
  then have "map (\<lambda>m. fst (get_manifest_install_directory fs m)) manifests = map Inr ds"
    by (simp only: map_manifests_Inr_iff)
  moreover have "fst (get_set_of_installed_directories fs manifests) = Inr (set ds)"
    using ds by (simp add: fst_get_set_of_installed_directories)
  ultimately show "\<exists>ds. fst (get_set_of_installed_directories fs manifests) = Inr (set ds)
            \<and> map (\<lambda>m. fst (get_manifest_install_directory fs m)) manifests = map Inr ds"
    by blast
next
  assume a: "open_text fs manifest_file = Inr text
        \<and> (\<forall>x \<in> set (readlines text).
              \<not> str_contains (str_strip x) STEAM_MANIFEST_INSTALL_DIR_KEY)"
  then have "scan_lines manifest_file (readlines text) = (None, [])"
    using scan_lines_no_key by blast
  then show "fst (get_manifest_install_directory fs manifest_file) = Inr None"
    using a by (simp add: get_manifest_install_directory_readable)
next
  assume a: "manifests \<noteq> []
        \<and> (\<forall>m \<in> set manifests. \<exists>text. open_text fs m = Inr text
              \<and> (\<forall>x \<in> set (readlines text).
                    \<not> str_contains (str_strip x) STEAM_MANIFEST_INSTALL_DIR_KEY))"
  then have nokey: "\<forall>m \<in> set manifests. \<exists>text. open_text fs m = Inr text
              \<and> (\<forall>x \<in> set (readlines text).
                    \<not> str_contains (str_strip x) STEAM_MANIFEST_INSTALL_DIR_KEY)"
    by blast
  have "fst (map_manifests fs manifests) = Inr (map (\<lambda>m. None) manifests)"
    using nokey by (rule map_manifests_no_key)
  moreover have "set (map (\<lambda>m. None :: string option) manifests) = {None}"
    using a by (cases manifests) auto
  ultimately show "fst (get_set_of_installed_directories fs manifests) = Inr {None}"
    by (simp add: fst_get_set_of_installed_directories)
next
  show "find_unmapped_directories C {None} = sort (map snd C)"
    by (rule find_unmapped_directories_None)
qed

theorem C4_no_key_installed_set_is_None_witness:
  "open_text
     \<lparr>glob = \<lambda>p. [], isfile = \<lambda>p. True, isdir = \<lambda>p. False,
        open_text = \<lambda>p. if p = ''b.acf''
                           then Inr (STEAM_MANIFEST_INSTALL_DIR_KEY
                                     @ ''  '' @ [dq] @ ''MyGame'' @ [dq, nl])
                         else Inr (''{'' @ [nl] @ ''}'' @ [nl])\<rparr> ''a.acf''
     = Inr (''{'' @ [nl] @ ''}'' @ [nl])
   \<and> open_text
     \<lparr>glob = \<lambda>p. [], isfile = \<lambda>p. True, isdir = \<lambda>p. False,
        open_text = \<lambda>p. if p = ''b.acf''
                           then Inr (STEAM_MANIFEST_INSTALL_DIR_KEY
                                     @ ''  '' @ [dq] @ ''MyGame'' @ [dq, nl])
                         else Inr (''{'' @ [nl] @ ''}'' @ [nl])\<rparr> ''b.acf''
     = Inr (STEAM_MANIFEST_INSTALL_DIR_KEY @ ''  '' @ [dq] @ ''MyGame'' @ [dq, nl])
   \<and> (\<exists>ds. fst (get_set_of_installed_directories
     \<lparr>glob = \<lambda>p. [], isfile = \<lambda>p. True, isdir = \<lambda>p. False,
        open_text = \<lambda>p. if p = ''b.acf''
                           then Inr (STEAM_MANIFEST_INSTALL_DIR_KEY
                                     @ ''  '' @ [dq] @ ''MyGame'' @ [dq, nl])
                         else Inr (''{'' @ [nl] @ ''}'' @ [nl])\<rparr> [''a.acf'', ''b.acf'']) = Inr (set ds)
          \<and> map (\<lambda>m. fst (get_manifest_install_directory
     \<lparr>glob = \<lambda>p. [], isfile = \<lambda>p. True, isdir = \<lambda>p. False,
        open_text = \<lambda>p. if p = ''b.acf''
                           then Inr (STEAM_MANIFEST_INSTALL_DIR_KEY
                                     @ ''  '' @ [dq] @ ''MyGame'' @ [dq, nl])
                         else Inr (''{'' @ [nl] @ ''}'' @ [nl])\<rparr> m)) [''a.acf'', ''b.acf''] = map Inr ds)
   \<and> fst (get_set_of_installed_directories
     \<lparr>glob = \<lambda>p. [], isfile = \<lambda>p. True, isdir = \<lambda>p. False,
        open_text = \<lambda>p. if p = ''b.acf''
                           then Inr (STEAM_MANIFEST_INSTALL_DIR_KEY
                                     @ ''  '' @ [dq] @ ''MyGame'' @ [dq, nl])
                         else Inr (''{'' @ [nl] @ ''}'' @ [nl])\<rparr> [''a.acf'', ''b.acf'']) = Inr {None, Some ''MyGame''}
   \<and> readlines (''{'' @ [nl] @ ''}'' @ [nl]) = [''{'' @ [nl], ''}'' @ [nl]]
   \<and> \<not> str_contains (str_strip (''{'' @ [nl])) STEAM_MANIFEST_INSTALL_DIR_KEY
   \<and> \<not> str_contains (str_strip (''}'' @ [nl])) STEAM_MANIFEST_INSTALL_DIR_KEY
   \<and> fst (get_manifest_install_directory
     \<lparr>glob = \<lambda>p. [], isfile = \<lambda>p. True, isdir = \<lambda>p. False,
        open_text = \<lambda>p. if p = ''b.acf''
                           then Inr (STEAM_MANIFEST_INSTALL_DIR_KEY
                                     @ ''  '' @ [dq] @ ''MyGame'' @ [dq, nl])
                         else Inr (''{'' @ [nl] @ ''}'' @ [nl])\<rparr> ''a.acf'') = Inr None
   \<and> [''a.acf'', ''c.acf''] \<noteq> []
   \<and> open_text
     \<lparr>glob = \<lambda>p. [], isfile = \<lambda>p. True, isdir = \<lambda>p. False,
        open_text = \<lambda>p. if p = ''b.acf''
                           then Inr (STEAM_MANIFEST_INSTALL_DIR_KEY
                                     @ ''  '' @ [dq] @ ''MyGame'' @ [dq, nl])
                         else Inr (''{'' @ [nl] @ ''}'' @ [nl])\<rparr> ''c.acf''
     = Inr (''{'' @ [nl] @ ''}'' @ [nl])
   \<and> fst (get_set_of_installed_directories
     \<lparr>glob = \<lambda>p. [], isfile = \<lambda>p. True, isdir = \<lambda>p. False,
        open_text = \<lambda>p. if p = ''b.acf''
                           then Inr (STEAM_MANIFEST_INSTALL_DIR_KEY
                                     @ ''  '' @ [dq] @ ''MyGame'' @ [dq, nl])
                         else Inr (''{'' @ [nl] @ ''}'' @ [nl])\<rparr> [''a.acf'', ''c.acf'']) = Inr {None}
   \<and> find_unmapped_directories [(''B'', ''/c/B''), (''A'', ''/c/A'')] {None}
       = sort (map snd [(''B'', ''/c/B''), (''A'', ''/c/A'')])
   \<and> find_unmapped_directories [(''B'', ''/c/B''), (''A'', ''/c/A'')] {None}
       = [''/c/A'', ''/c/B'']"
proof -
  let ?fs = "\<lparr>glob = \<lambda>p. [], isfile = \<lambda>p. True, isdir = \<lambda>p. False,
        open_text = \<lambda>p. if p = ''b.acf''
                           then Inr (STEAM_MANIFEST_INSTALL_DIR_KEY
                                     @ ''  '' @ [dq] @ ''MyGame'' @ [dq, nl])
                         else Inr (''{'' @ [nl] @ ''}'' @ [nl])\<rparr>"
  let ?t = "''{'' @ [nl] @ ''}'' @ [nl]"
  let ?C = "[(''B'', ''/c/B''), (''A'', ''/c/A'')]"
  have oa: "open_text ?fs ''a.acf'' = Inr ?t"
    by simp
  have ob: "open_text ?fs ''b.acf''
              = Inr (STEAM_MANIFEST_INSTALL_DIR_KEY @ ''  '' @ [dq] @ ''MyGame'' @ [dq, nl])"
    by simp
  have oc: "open_text ?fs ''c.acf'' = Inr ?t"
    by simp
  have readable: "\<forall>m \<in> set [''a.acf'', ''b.acf'']. \<exists>text. open_text ?fs m = Inr text"
    by simp
  have mixed: "fst (get_set_of_installed_directories ?fs [''a.acf'', ''b.acf''])
                 = Inr {None, Some ''MyGame''}"
    by code_simp
  have r: "readlines ?t = [''{'' @ [nl], ''}'' @ [nl]]"
    by code_simp
  have k1: "\<not> str_contains (str_strip (''{'' @ [nl])) STEAM_MANIFEST_INSTALL_DIR_KEY"
    by code_simp
  have k2: "\<not> str_contains (str_strip (''}'' @ [nl])) STEAM_MANIFEST_INSTALL_DIR_KEY"
    by code_simp
  have nokey: "\<forall>x \<in> set (readlines ?t).
                 \<not> str_contains (str_strip x) STEAM_MANIFEST_INSTALL_DIR_KEY"
    using k1 k2 by (simp only: r) simp
  have ne: "[''a.acf'', ''c.acf''] \<noteq> []"
    by simp
  have allnokey: "\<forall>m \<in> set [''a.acf'', ''c.acf'']. \<exists>text. open_text ?fs m = Inr text
             \<and> (\<forall>x \<in> set (readlines text).
                   \<not> str_contains (str_strip x) STEAM_MANIFEST_INSTALL_DIR_KEY)"
    using oa oc nokey by simp
  have v: "find_unmapped_directories ?C {None} = [''/c/A'', ''/c/B'']"
    by code_simp
  note thm1 = C4_no_key_installed_set_is_None
    [of "[''a.acf'', ''b.acf'']" ?fs "''a.acf''" ?t ?C]
  note thm2 = C4_no_key_installed_set_is_None
    [of "[''a.acf'', ''c.acf'']" ?fs "''a.acf''" ?t ?C]
  have c1: "\<exists>ds. fst (get_set_of_installed_directories ?fs [''a.acf'', ''b.acf''])
                   = Inr (set ds)
          \<and> map (\<lambda>m. fst (get_manifest_install_directory ?fs m)) [''a.acf'', ''b.acf'']
              = map Inr ds"
    using thm1 readable by blast
  have c2: "fst (get_manifest_install_directory ?fs ''a.acf'') = Inr None"
    using thm1 oa nokey by blast
  have c3: "fst (get_set_of_installed_directories ?fs [''a.acf'', ''c.acf'']) = Inr {None}"
    using thm2 ne allnokey by blast
  have c4: "find_unmapped_directories ?C {None} = sort (map snd ?C)"
    using thm2 ne allnokey by blast
  from oa ob c1 mixed r k1 k2 c2 ne oc c3 c4 v show ?thesis
    by (intro conjI)
qed

text \<open>
  The claim as stated fails: for one manifest without a key line the installed set is not
  empty.
\<close>

theorem C4_installed_set_not_empty:
  "fst (get_set_of_installed_directories
          \<lparr>glob = \<lambda>p. [], isfile = \<lambda>p. True, isdir = \<lambda>p. False,
           open_text = \<lambda>p. Inr (''{'' @ [nl] @ ''}'' @ [nl])\<rparr>
          [''a.acf''])
   \<noteq> Inr {}"
  by code_simp

section \<open>Properties of the directory locator\<close>

lemma dict_setitem_values:
  "snd ` set (dict_setitem d k v) \<subseteq> insert v (snd ` set d)"
proof (induction d)
  case Nil
  then show ?case by simp
next
  case (Cons e d)
  obtain k' v' where e: "e = (k', v')"
    by (cases e)
  show ?case
  proof (cases "k' = k")
    case True
    with e show ?thesis by auto
  next
    case False
    with e Cons.IH show ?thesis by auto
  qed
qed

lemma fold_dict_setitem_values:
  "snd ` set (fold (\<lambda>x d. dict_setitem d (f x) x) xs d) \<subseteq> snd ` set d \<union> set xs"
proof (induction xs arbitrary: d)
  case Nil
  then show ?case by simp
next
  case (Cons x xs)
  have "snd ` set (fold (\<lambda>x d. dict_setitem d (f x) x) xs (dict_setitem d (f x) x))
          \<subseteq> snd ` set (dict_setitem d (f x) x) \<union> set xs"
    by (rule Cons.IH)
  also have "\<dots> \<subseteq> insert x (snd ` set d) \<union> set xs"
    using dict_setitem_values [of d "f x" x] by blast
  finally show ?case
    by auto
qed

lemma find_unmapped_directories_values:
  "set (find_unmapped_directories C I) \<subseteq> snd ` set C"
  by (force simp: set_find_unmapped_directories)

lemma find_all_reports_game_folders:
  assumes "fst (find_all_unassociated_steam_game_directories fs steam_apps_dir) = Inr res"
  shows "set res \<subseteq> set (fst (get_manifests_and_detect_game_directories fs
                               (join_path steam_apps_dir [STEAM_COMMON_FOLDER, ''*''])
                               (join_path steam_apps_dir [''*.'' @ STEAM_MANIFEST_EXTENSION])))"
proof -
  obtain game_folders manifests where gm:
    "get_manifests_and_detect_game_directories fs
       (join_path steam_apps_dir [STEAM_COMMON_FOLDER, ''*''])
       (join_path steam_apps_dir [''*.'' @ STEAM_MANIFEST_EXTENSION]) = (game_folders, manifests)"
    by (cases "get_manifests_and_detect_game_directories fs
       (join_path steam_apps_dir [STEAM_COMMON_FOLDER, ''*''])
       (join_path steam_apps_dir [''*.'' @ STEAM_MANIFEST_EXTENSION])") 
  obtain r logged where gs: "get_set_of_installed_directories fs manifests = (r, logged)"
    by (cases "get_set_of_installed_directories fs manifests")
  from assms gm gs obtain installed_list where
    "res = find_unmapped_directories
             (fold (\<lambda>x d. dict_setitem d (basename x) x) game_folders []) installed_list"
    by (cases r) (auto simp: find_all_unassociated_steam_game_directories_def Let_def)
  then have "set res \<subseteq> snd ` set (fold (\<lambda>x d. dict_setitem d (basename x) x) game_folders [])"
    using find_unmapped_directories_values by simp
  also have "\<dots> \<subseteq> set game_folders"
    using fold_dict_setitem_values [of basename game_folders "[]"] by simp
  finally show ?thesis
    using gm by simp
qed

text \<open>
  Claim C6. A path whose base name, in lower case, is in the ignore set is not among the
  game folders, whatever the file system holds (its manifests included), and the whole
  scan never reports it.
\<close>

theorem C6_ignored_directory_dropped:
  assumes "str_lower (basename x) \<in> STEAM_FOLDER_IGNORE_LIST"
  shows "x \<notin> set (fst (get_manifests_and_detect_game_directories fs games_folder_glob
                          manifests_glob))
       \<and> (\<forall>res. fst (find_all_unassociated_steam_game_directories fs steam_apps_dir) = Inr res
              \<longrightarrow> x \<notin> set res)"
proof -
  have dropped: "x \<notin> set (fst (get_manifests_and_detect_game_directories fs g m))" for g m
    using assms by (simp add: get_manifests_and_detect_game_directories_def)
  then show ?thesis
    using find_all_reports_game_folders by blast
qed

theorem C6_ignored_directory_dropped_witness:
  "str_lower (basename ''/s/common/STEAM Controller CONFIGS'') \<in> STEAM_FOLDER_IGNORE_LIST
   \<and> ''/s/common/STEAM Controller CONFIGS''
       \<notin> set (fst (get_manifests_and_detect_game_directories
                     \<lparr>glob = \<lambda>p. [''/s/common/STEAM Controller CONFIGS'', ''/s/common/Game''],
                      isfile = \<lambda>p. False, isdir = \<lambda>p. True, open_text = \<lambda>p. Inl OSError\<rparr>
                     ''/s/common/*'' ''/s/*.acf''))
   \<and> fst (get_manifests_and_detect_game_directories
             \<lparr>glob = \<lambda>p. [''/s/common/STEAM Controller CONFIGS'', ''/s/common/Game''],
              isfile = \<lambda>p. False, isdir = \<lambda>p. True, open_text = \<lambda>p. Inl OSError\<rparr>
             ''/s/common/*'' ''/s/*.acf'') = [''/s/common/Game'']"
proof -
  have ignored:
    "str_lower (basename ''/s/common/STEAM Controller CONFIGS'') \<in> STEAM_FOLDER_IGNORE_LIST"
    by code_simp
  have val: "fst (get_manifests_and_detect_game_directories
             \<lparr>glob = \<lambda>p. [''/s/common/STEAM Controller CONFIGS'', ''/s/common/Game''],
              isfile = \<lambda>p. False, isdir = \<lambda>p. True, open_text = \<lambda>p. Inl OSError\<rparr>
             ''/s/common/*'' ''/s/*.acf'') = [''/s/common/Game'']"
    by code_simp
  from C6_ignored_directory_dropped [OF ignored] ignored val
  show ?thesis
    by blast
qed

end
